theory Spec2Isabelle
  imports Main "HOL-Library.List_Lexorder"
begin

section \<open>Python strings\<close>

text \<open>
  A Python \<open>str\<close> is a sequence of code points. The model uses \<open>string\<close>; a
  \<open>char\<close> stands for the code point of the same number, so the model is exact for
  text in the range U+0000..U+00FF. The character classes below are those of CPython 3
  on that range.
\<close>

datatype py_error = ValueError | OSError

definition nl :: char where
  "nl = CHR 0x0A"

definition py_isspace :: "char \<Rightarrow> bool" where
  \<comment> \<open>\<open>str.isspace\<close>, \<open>str.strip\<close> and the \<open>\s\<close> of \<open>re\<close>\<close>
  "py_isspace c = (c \<in> set [CHR 0x09, CHR 0x0A, CHR 0x0B, CHR 0x0C, CHR 0x0D,
      CHR 0x1C, CHR 0x1D, CHR 0x1E, CHR 0x1F, CHR 0x20, CHR 0x85, CHR 0xA0])"

definition int_isspace :: "char \<Rightarrow> bool" where
  \<comment> \<open>the whitespace \<open>int()\<close> skips around a literal\<close>
  "int_isspace c = (c \<in> set [CHR 0x09, CHR 0x0A, CHR 0x0B, CHR 0x0C, CHR 0x0D,
      CHR 0x20, CHR 0x85, CHR 0xA0])"

definition py_isdigit :: "char \<Rightarrow> bool" where
  \<comment> \<open>\<open>\d\<close> of \<open>re\<close> and the digits \<open>int()\<close> reads\<close>
  "py_isdigit c = (c \<in> set ''0123456789'')"

definition digit_val :: "char \<Rightarrow> int" where
  "digit_val c = int (of_char c) - 48"

definition py_lower_char :: "char \<Rightarrow> char" where
  "py_lower_char c =
     (let n = (of_char c :: nat) in
      if (65 \<le> n \<and> n \<le> 90) \<or> (192 \<le> n \<and> n \<le> 222 \<and> n \<noteq> 215)
      then char_of (n + 32) else c)"


definition py_strip :: "string \<Rightarrow> string" where
  "py_strip s = rev (dropWhile py_isspace (rev (dropWhile py_isspace s)))"

definition py_endswith :: "string \<Rightarrow> string \<Rightarrow> bool" where
  "py_endswith s suf = (length suf \<le> length s \<and> drop (length s - length suf) s = suf)"

text \<open>\<open>s.replace(old, new)\<close> for a non-empty \<open>old\<close>: leftmost occurrences, not overlapping.\<close>

fun py_replace :: "string \<Rightarrow> string \<Rightarrow> string \<Rightarrow> string" where
  "py_replace old new [] = []"
| "py_replace old new (c # cs) =
     (if old \<noteq> [] \<and> take (length old) (c # cs) = old
      then new @ py_replace old new (drop (length old - 1) cs)
      else c # py_replace old new cs)"

text \<open>\<open>s.split(sep)\<close> for a non-empty \<open>sep\<close>: the pieces between the occurrences.\<close>

fun py_split :: "string \<Rightarrow> string \<Rightarrow> string list" where
  "py_split sep [] = [[]]"
| "py_split sep (c # cs) =
     (if sep \<noteq> [] \<and> take (length sep) (c # cs) = sep
      then [] # py_split sep (drop (length sep - 1) cs)
      else (case py_split sep cs of
              [] \<Rightarrow> [[c]]
            | p # ps \<Rightarrow> (c # p) # ps))"

text \<open>\<open>s.split(sep, 1)\<close>: at most one cut, at the first occurrence.\<close>

fun split_first :: "string \<Rightarrow> string \<Rightarrow> (string \<times> string) option" where
  "split_first sep [] = None"
| "split_first sep (c # cs) =
     (if sep \<noteq> [] \<and> take (length sep) (c # cs) = sep
      then Some ([], drop (length sep - 1) cs)
      else map_option (\<lambda>(a, b). (c # a, b)) (split_first sep cs))"

definition py_split1 :: "string \<Rightarrow> string \<Rightarrow> string list" where
  "py_split1 sep s = (case split_first sep s of None \<Rightarrow> [s] | Some (a, b) \<Rightarrow> [a, b])"


subsection \<open>\<open>int(s)\<close> in base 10\<close>

text \<open>
  \<open>int\<close> skips surrounding whitespace, reads an optional sign and then digits, where
  single underscores may stand between digits. Anything else is a \<open>ValueError\<close>.
  The interpreter's optional limit on the number of digits is not modelled.
\<close>

fun int_digits :: "int \<Rightarrow> string \<Rightarrow> int option" where
  "int_digits acc [] = Some acc"
| "int_digits acc [c] = (if py_isdigit c then Some (10 * acc + digit_val c) else None)"
| "int_digits acc (c # d # ds) =
     (if py_isdigit c then int_digits (10 * acc + digit_val c) (d # ds)
      else if c = CHR ''_'' \<and> py_isdigit d then int_digits (10 * acc + digit_val d) ds
      else None)"

definition int_unsigned :: "string \<Rightarrow> int option" where
  "int_unsigned s =
     (case s of
        [] \<Rightarrow> None
      | c # cs \<Rightarrow> if py_isdigit c then int_digits (digit_val c) cs else None)"

definition py_int :: "string \<Rightarrow> py_error + int" where
  "py_int s =
     (let t = rev (dropWhile int_isspace (rev (dropWhile int_isspace s)));
          r = (case t of
                 [] \<Rightarrow> None
               | c # cs \<Rightarrow>
                   if c = CHR ''-'' then map_option uminus (int_unsigned cs)
                   else if c = CHR ''+'' then int_unsigned cs
                   else int_unsigned t)
      in case r of None \<Rightarrow> Inl ValueError | Some n \<Rightarrow> Inr n)"

section \<open>VersionKey\<close>

text \<open>
  The list comprehension \<open>[int(p) for p in parts]\<close>: the first segment that fails raises.
\<close>

fun int_all :: "string list \<Rightarrow> py_error + int list" where
  "int_all [] = Inr []"
| "int_all (p # ps) =
     (case py_int p of
        Inl e \<Rightarrow> Inl e
      | Inr n \<Rightarrow> (case int_all ps of Inl e \<Rightarrow> Inl e | Inr ns \<Rightarrow> Inr (n # ns)))"

definition version_parts :: "string \<Rightarrow> string list" where
  "version_parts filename = py_split ''.'' (py_replace ''.rst'' [] filename)"

definition get_version_key :: "string \<Rightarrow> py_error + int list" where
  \<comment> \<open>\<open>except ValueError\<close> catches that error only; any other would propagate\<close>
  "get_version_key filename =
     (case int_all (version_parts filename) of
        Inl ValueError \<Rightarrow> Inr [0, 0, 0]
      | Inl e \<Rightarrow> Inl e
      | Inr ks \<Rightarrow> Inr ks)"

section \<open>Calendar\<close>

record datetime =
  year :: int
  month :: int
  day :: int
  hour :: int
  minute :: int
  second :: int
  microsecond :: int

definition is_leap :: "int \<Rightarrow> bool" where
  "is_leap y = (y mod 4 = 0 \<and> (y mod 100 \<noteq> 0 \<or> y mod 400 = 0))"

definition days_in_month :: "int \<Rightarrow> int \<Rightarrow> int" where
  "days_in_month y m =
     (if m = 2 then (if is_leap y then 29 else 28)
      else if m = 4 \<or> m = 6 \<or> m = 9 \<or> m = 11 then 30 else 31)"

definition valid_date :: "int \<Rightarrow> int \<Rightarrow> int \<Rightarrow> bool" where
  "valid_date y m d =
     (1 \<le> y \<and> y \<le> 9999 \<and> 1 \<le> m \<and> m \<le> 12 \<and> 1 \<le> d \<and> d \<le> days_in_month y m)"


definition mk_datetime :: "int \<Rightarrow> int \<Rightarrow> int \<Rightarrow> py_error + datetime" where
  \<comment> \<open>\<open>datetime(y, m, d)\<close>: midnight of a date, \<open>ValueError\<close> when the date does not exist\<close>
  "mk_datetime y m d =
     (if valid_date y m d
      then Inr \<lparr>year = y, month = m, day = d, hour = 0, minute = 0, second = 0, microsecond = 0\<rparr>
      else Inl ValueError)"

definition dt_key :: "datetime \<Rightarrow> int list" where
  "dt_key t = [year t, month t, day t, hour t, minute t, second t, microsecond t]"

definition dt_le :: "datetime \<Rightarrow> datetime \<Rightarrow> bool" where
  \<comment> \<open>\<open>a <= b\<close> on naive datetimes: field by field, most significant first\<close>
  "dt_le a b = (dt_key a \<le> dt_key b)"

section \<open>CutoffCalculator\<close>

definition compute_cutoff_date :: "int \<Rightarrow> datetime \<Rightarrow> py_error + datetime" where
  "compute_cutoff_date months now =
     (let years_to_subtract = months div 12;
          months_to_subtract_from_current = months mod 12;
          target_year = year now - years_to_subtract;
          target_month = month now - months_to_subtract_from_current;
          (target_month, target_year) =
             (if target_month \<le> 0 then (target_month + 12, target_year - 1)
              else (target_month, target_year));
          target_day = min (day now) 28
      in mk_datetime target_year target_month target_day)"

section \<open>Aggregator and filter\<close>

text \<open>
  \<open>datetime.strptime(s, "%Y-%m-%d")\<close>: the format is matched from the left as
  four digits, \<open>-\<close>, a month \<open>1[0-2]|0[1-9]|[1-9]\<close>, \<open>-\<close>, a day
  \<open>3[0-1]|[1-2]\d|0[1-9]|[1-9]| [1-9]\<close> (alternatives in this order), and no text may
  remain; the date must exist.
\<close>

definition strp_year :: "string \<Rightarrow> (string \<times> string) option" where
  "strp_year s =
     (if 4 \<le> length s \<and> list_all py_isdigit (take 4 s) then Some (take 4 s, drop 4 s) else None)"

definition strp_lit :: "char \<Rightarrow> string \<Rightarrow> string option" where
  "strp_lit ch s = (case s of [] \<Rightarrow> None | c # cs \<Rightarrow> if c = ch then Some cs else None)"

definition strp_month :: "string \<Rightarrow> (string \<times> string) option" where
  "strp_month s =
     (case s of
        a # b # r \<Rightarrow>
          if a = CHR ''1'' \<and> b \<in> set ''012'' then Some ([a, b], r)
          else if a = CHR ''0'' \<and> b \<in> set ''123456789'' then Some ([a, b], r)
          else if a \<in> set ''123456789'' then Some ([a], b # r)
          else None
      | [a] \<Rightarrow> if a \<in> set ''123456789'' then Some ([a], []) else None
      | [] \<Rightarrow> None)"

definition strp_day :: "string \<Rightarrow> (string \<times> string) option" where
  "strp_day s =
     (case s of
        a # b # r \<Rightarrow>
          if a = CHR ''3'' \<and> b \<in> set ''01'' then Some ([a, b], r)
          else if a \<in> set ''12'' \<and> py_isdigit b then Some ([a, b], r)
          else if a = CHR ''0'' \<and> b \<in> set ''123456789'' then Some ([a, b], r)
          else if a \<in> set ''123456789'' then Some ([a], b # r)
          else if a = CHR '' '' \<and> b \<in> set ''123456789'' then Some ([a, b], r)
          else None
      | [a] \<Rightarrow> if a \<in> set ''123456789'' then Some ([a], []) else None
      | [] \<Rightarrow> None)"

definition strptime_ymd :: "string \<Rightarrow> py_error + datetime" where
  "strptime_ymd s =
     (case strp_year s of
        None \<Rightarrow> Inl ValueError
      | Some (ys, r1) \<Rightarrow>
     (case strp_lit (CHR ''-'') r1 of
        None \<Rightarrow> Inl ValueError
      | Some r2 \<Rightarrow>
     (case strp_month r2 of
        None \<Rightarrow> Inl ValueError
      | Some (ms, r3) \<Rightarrow>
     (case strp_lit (CHR ''-'') r3 of
        None \<Rightarrow> Inl ValueError
      | Some r4 \<Rightarrow>
     (case strp_day r4 of
        None \<Rightarrow> Inl ValueError
      | Some (ds, r5) \<Rightarrow>
          if r5 \<noteq> [] then Inl ValueError
          else (case (py_int ys, py_int ms, py_int ds) of
                  (Inr y, Inr m, Inr d) \<Rightarrow> mk_datetime y m d
                | _ \<Rightarrow> Inl ValueError))))))"

text \<open>\<open>str(n)\<close> for an integer.\<close>

function str_nat :: "nat \<Rightarrow> string" where
  "str_nat n = (if n < 10 then [char_of (48 + n)] else str_nat (n div 10) @ [char_of (48 + n mod 10)])"
  by pat_completeness auto
termination
  by (relation "measure id") auto

declare str_nat.simps [simp del]

definition str_int :: "int \<Rightarrow> string" where
  "str_int i = (if i < 0 then CHR ''-'' # str_nat (nat (- i)) else str_nat (nat i))"

type_synonym commit = "string \<times> string \<times> string"
  \<comment> \<open>the tuple \<open>(date, hash, message)\<close> of \<open>full_history_data\<close>\<close>

datatype agg_outcome =
    InputError
  | GenerationError
  | Generated "string list" nat

text \<open>
  The loop of \<open>generate_agg_list\<close> over \<open>full_history_data\<close>; a date that does not parse
  is skipped by \<open>except ValueError: continue\<close>.
\<close>

fun agg_loop :: "datetime \<Rightarrow> commit list \<Rightarrow> string list \<times> nat \<Rightarrow> string list \<times> nat" where
  "agg_loop cutoff [] acc = acc"
| "agg_loop cutoff ((date_str, h, msg) # rest) (output, count) =
     (case strptime_ymd date_str of
        Inl e \<Rightarrow> agg_loop cutoff rest (output, count)
      | Inr d \<Rightarrow>
          if dt_le cutoff d
          then agg_loop cutoff rest
                 (output @ [date_str @ '' | '' @ msg @ '' ('' @ h @ '')''], count + 1)
          else agg_loop cutoff rest (output, count))"

definition generate_agg_list :: "string \<Rightarrow> datetime \<Rightarrow> commit list \<Rightarrow> agg_outcome" where
  \<comment> \<open>\<open>months_var\<close> is the text of the entry field, \<open>now\<close> the clock read by
      \<open>compute_cutoff_date\<close>; the result is the list of lines shown and the count reported\<close>
  "generate_agg_list months_var now full_history_data =
     (case py_int months_var of
        Inl ValueError \<Rightarrow> InputError
      | Inl e \<Rightarrow> GenerationError
      | Inr months \<Rightarrow>
          (case compute_cutoff_date months now of
             Inl e \<Rightarrow> GenerationError
           | Inr cutoff \<Rightarrow>
               (case agg_loop cutoff full_history_data
                       ([''Mesa History - Last '' @ str_int months @ '' Months'',
                         replicate 60 (CHR ''-'')], 0) of
                  (output, count) \<Rightarrow> Generated output count)))"


section \<open>Regular expressions\<close>

text \<open>
  The patterns of the program are sequences of single characters, greedy repetitions of
  a character class, anchors, one optional part and numbered groups. \<open>rx_match\<close> is the
  backtracking matcher of \<open>re\<close> on such sequences: a repetition takes as many
  characters as it can and gives them back one by one while the rest of the pattern
  fails; an optional part is tried first with its content, then without. The matcher
  carries the text before the current position (reversed, for the anchor \<open>^\<close>), the
  text after it, the offsets at which open groups started and the groups captured so far.
\<close>

datatype rx =
    Chr "char \<Rightarrow> bool"
  | Rep "char \<Rightarrow> bool" nat
  | Bol
  | Eol
  | Open nat
  | Close nat
  | Opt "rx list"

type_synonym rx_result = "string \<times> string \<times> (nat \<rightharpoonup> string)"

definition at_bol :: "bool \<Rightarrow> string \<Rightarrow> bool" where
  \<comment> \<open>\<open>^\<close>: the start of the text, with MULTILINE also after each newline\<close>
  "at_bol ml pre = (case pre of [] \<Rightarrow> True | c # cs \<Rightarrow> ml \<and> c = nl)"

definition at_eol :: "bool \<Rightarrow> string \<Rightarrow> bool" where
  \<comment> \<open>\<open>$\<close>: the end of the text or just before a final newline, with MULTILINE before each newline\<close>
  "at_eol ml s = (case s of [] \<Rightarrow> True | c # cs \<Rightarrow> c = nl \<and> (ml \<or> cs = []))"

fun rx_match :: "bool \<Rightarrow> rx list \<Rightarrow> string \<Rightarrow> string \<Rightarrow> (nat \<rightharpoonup> nat) \<Rightarrow> (nat \<rightharpoonup> string)
    \<Rightarrow> rx_result option" where
  "rx_match ml [] pre s mk cp = Some (pre, s, cp)"
| "rx_match ml (Chr p # r) pre [] mk cp = None"
| "rx_match ml (Chr p # r) pre (c # cs) mk cp =
     (if p c then rx_match ml r (c # pre) cs mk cp else None)"
| "rx_match ml (Rep p n # r) pre [] mk cp =
     (if n = 0 then rx_match ml r pre [] mk cp else None)"
| "rx_match ml (Rep p n # r) pre (c # cs) mk cp =
     (if p c
      then (case rx_match ml (Rep p (n - 1) # r) (c # pre) cs mk cp of
              Some res \<Rightarrow> Some res
            | None \<Rightarrow> if n = 0 then rx_match ml r pre (c # cs) mk cp else None)
      else if n = 0 then rx_match ml r pre (c # cs) mk cp else None)"
| "rx_match ml (Bol # r) pre s mk cp =
     (if at_bol ml pre then rx_match ml r pre s mk cp else None)"
| "rx_match ml (Eol # r) pre s mk cp =
     (if at_eol ml s then rx_match ml r pre s mk cp else None)"
| "rx_match ml (Open g # r) pre s mk cp = rx_match ml r pre s (mk(g \<mapsto> length pre)) cp"
| "rx_match ml (Close g # r) pre s mk cp =
     (case mk g of
        None \<Rightarrow> None
      | Some k \<Rightarrow> rx_match ml r pre s mk (cp(g \<mapsto> rev (take (length pre - k) pre))))"
| "rx_match ml (Opt xs # r) pre s mk cp =
     (case rx_match ml (xs @ r) pre s mk cp of
        Some res \<Rightarrow> Some res
      | None \<Rightarrow> rx_match ml r pre s mk cp)"

definition re_match :: "bool \<Rightarrow> rx list \<Rightarrow> string \<Rightarrow> rx_result option" where
  \<comment> \<open>\<open>re.match\<close>: a match at the start of the text\<close>
  "re_match ml pat s = rx_match ml pat [] s Map.empty Map.empty"

fun re_search_from :: "bool \<Rightarrow> rx list \<Rightarrow> string \<Rightarrow> string \<Rightarrow> rx_result option" where
  "re_search_from ml pat pre [] = rx_match ml pat pre [] Map.empty Map.empty"
| "re_search_from ml pat pre (c # cs) =
     (case rx_match ml pat pre (c # cs) Map.empty Map.empty of
        Some res \<Rightarrow> Some res
      | None \<Rightarrow> re_search_from ml pat (c # pre) cs)"

definition re_search :: "bool \<Rightarrow> rx list \<Rightarrow> string \<Rightarrow> rx_result option" where
  \<comment> \<open>\<open>re.search\<close>: the match at the leftmost position that has one\<close>
  "re_search ml pat s = re_search_from ml pat [] s"

definition group :: "(nat \<rightharpoonup> string) \<Rightarrow> nat \<Rightarrow> string" where
  \<comment> \<open>\<open>match.group(g)\<close> of a group that took part in the match\<close>
  "group cp g = (case cp g of None \<Rightarrow> [] | Some v \<Rightarrow> v)"

text \<open>
  \<open>pattern.split(text)\<close> for a pattern with one group: the text before each match and
  the group of the match, then the text after the last match. \<open>cur\<close> is the text read
  since the last match, reversed. A match of the pattern used below is never empty;
  an empty match is passed over here.
\<close>

function re_split_from :: "bool \<Rightarrow> rx list \<Rightarrow> string \<Rightarrow> string \<Rightarrow> string \<Rightarrow> string list" where
  "re_split_from ml pat pre cur s =
     (case rx_match ml pat pre s Map.empty Map.empty of
        Some (pre', s', cp) \<Rightarrow>
          if length s' < length s
          then rev cur # group cp 1 # re_split_from ml pat pre' [] s'
          else (case s of
                  [] \<Rightarrow> [rev cur]
                | c # cs \<Rightarrow> re_split_from ml pat (c # pre) (c # cur) cs)
      | None \<Rightarrow>
          (case s of
             [] \<Rightarrow> [rev cur]
           | c # cs \<Rightarrow> re_split_from ml pat (c # pre) (c # cur) cs))"
  by pat_completeness auto
termination
  by (relation "measure (\<lambda>(ml, pat, pre, cur, s). length s)") auto

declare re_split_from.simps [simp del]

definition re_split :: "bool \<Rightarrow> rx list \<Rightarrow> string \<Rightarrow> string list" where
  "re_split ml pat s = re_split_from ml pat [] [] s"

definition lit :: "char \<Rightarrow> rx" where
  "lit ch = Chr (\<lambda>c. c = ch)"

definition lit_i :: "char \<Rightarrow> rx" where
  \<comment> \<open>a literal under IGNORECASE\<close>
  "lit_i ch = Chr (\<lambda>c. py_lower_char c = py_lower_char ch)"

definition is_hex :: "char \<Rightarrow> bool" where
  "is_hex c = (c \<in> set ''abcdef0123456789'')"

definition history_pattern :: "rx list" where
  \<comment> \<open>\<open>^(\d{4}-\d{2}-\d{2}) \| (.*) \(([a-f0-9]+)\)$\<close>\<close>
  "history_pattern =
     [Bol, Open 1, Chr py_isdigit, Chr py_isdigit, Chr py_isdigit, Chr py_isdigit, lit CHR ''-'',
      Chr py_isdigit, Chr py_isdigit, lit CHR ''-'', Chr py_isdigit, Chr py_isdigit, Close 1,
      lit CHR '' '', lit CHR ''|'', lit CHR '' '',
      Open 2, Rep (\<lambda>c. c \<noteq> nl) 0, Close 2,
      lit CHR '' '', lit CHR ''('', Open 3, Rep is_hex 1, Close 3, lit CHR '')'', Eol]"

definition release_pattern :: "rx list" where
  \<comment> \<open>\<open>^\s*=+\s*\n\s*RELEASE:\s*([\d\.]+)\s*\n\s*=+\s*\n\<close> with IGNORECASE and MULTILINE\<close>
  "release_pattern =
     [Bol, Rep py_isspace 0, Rep (\<lambda>c. c = CHR ''='') 1, Rep py_isspace 0, lit nl,
      Rep py_isspace 0,
      lit_i CHR ''R'', lit_i CHR ''E'', lit_i CHR ''L'', lit_i CHR ''E'', lit_i CHR ''A'',
      lit_i CHR ''S'', lit_i CHR ''E'', lit CHR '':'',
      Rep py_isspace 0, Open 1, Rep (\<lambda>c. py_isdigit c \<or> c = CHR ''.'') 1, Close 1,
      Rep py_isspace 0, lit nl,
      Rep py_isspace 0, Rep (\<lambda>c. c = CHR ''='') 1, Rep py_isspace 0, lit nl]"

definition filename_pattern :: "rx list" where
  \<comment> \<open>\<open>^\d+\.\d+(\.\d+)?\.rst$\<close>\<close>
  "filename_pattern =
     [Bol, Rep py_isdigit 1, lit CHR ''.'', Rep py_isdigit 1,
      Opt [Open 1, lit CHR ''.'', Rep py_isdigit 1, Close 1],
      lit CHR ''.'', lit CHR ''r'', lit CHR ''s'', lit CHR ''t'', Eol]"

section \<open>Application state and cache files\<close>

datatype cache_file = Missing | Unreadable | Content string
  \<comment> \<open>a cache file: absent, present but failing to open or read, or its decoded text\<close>

record app_state =
  full_history_data :: "commit list"
  summaries_data :: "string \<rightharpoonup> string"
  release_list :: "string list"
  error_log :: "string list"

text \<open>
  Reading a text file line by line: \<open>\r\n\<close> and \<open>\r\<close> are read as \<open>\n\<close>, and a line
  ends after each \<open>\n\<close>; a last line without one is a line too.
\<close>

fun universal_newlines :: "string \<Rightarrow> string" where
  "universal_newlines [] = []"
| "universal_newlines [c] = (if c = CHR 0x0D then [nl] else [c])"
| "universal_newlines (c # d # r) =
     (if c = CHR 0x0D
      then (if d = nl then nl # universal_newlines r else nl # universal_newlines (d # r))
      else c # universal_newlines (d # r))"

fun lines_from :: "string \<Rightarrow> string \<Rightarrow> string list" where
  "lines_from cur [] = (if cur = [] then [] else [rev cur])"
| "lines_from cur (c # cs) =
     (if c = nl then rev (c # cur) # lines_from [] cs else lines_from (c # cur) cs)"

definition file_lines :: "string \<Rightarrow> string list" where
  "file_lines text = lines_from [] (universal_newlines text)"

section \<open>HistoryLogParser\<close>

definition parse_line :: "string \<Rightarrow> commit option" where
  \<comment> \<open>the body of the loop of \<open>load_data\<close>: the record a line appends, if any\<close>
  "parse_line raw =
     (let line = py_strip raw in
      if line = [] then None
      else (case re_search False history_pattern line of
              Some (pre, s, cp) \<Rightarrow> Some (group cp 1, group cp 3, group cp 2)
            | None \<Rightarrow>
                (let parts = py_split1 '' | '' line in
                 if length parts = 2 then Some (parts ! 0, ''?'', parts ! 1) else None)))"

fun history_loop :: "string list \<Rightarrow> app_state \<Rightarrow> app_state" where
  "history_loop [] st = st"
| "history_loop (line # rest) st =
     (case parse_line line of
        None \<Rightarrow> history_loop rest st
      | Some r \<Rightarrow> history_loop rest (st\<lparr>full_history_data := full_history_data st @ [r]\<rparr>))"

section \<open>ReleaseNotesParser\<close>

text \<open>
  The loop \<open>for i in range(1, len(parts), 2)\<close> of \<open>load_summaries\<close>.
\<close>

function summaries_loop :: "string list \<Rightarrow> nat \<Rightarrow> app_state \<Rightarrow> app_state" where
  "summaries_loop parts i st =
     (if i < length parts
      then (if i + 1 < length parts
            then (let version = py_strip (parts ! i); text = parts ! (i + 1) in
                  summaries_loop parts (i + 2)
                    (st\<lparr>summaries_data := (summaries_data st)(version \<mapsto> text),
                        release_list := release_list st @ [version]\<rparr>))
            else summaries_loop parts (i + 2) st)
      else st)"
  by pat_completeness auto
termination
  by (relation "measure (\<lambda>(parts, i, st). length parts - i)") auto

declare summaries_loop.simps [simp del]

definition load_summaries :: "cache_file \<Rightarrow> app_state \<Rightarrow> app_state" where
  "load_summaries summaries_file st =
     (let st1 = st\<lparr>summaries_data := Map.empty, release_list := []\<rparr> in
      case summaries_file of
        Missing \<Rightarrow> st1
      | Unreadable \<Rightarrow> st1\<lparr>error_log := error_log st1 @ [''Error reading summaries file'']\<rparr>
      | Content content \<Rightarrow>
          (let parts = re_split True release_pattern content in
           if length parts > 1 then summaries_loop parts 1 st1 else st1))"

definition load_data :: "cache_file \<Rightarrow> cache_file \<Rightarrow> app_state \<Rightarrow> app_state" where
  "load_data changelog_history_file summaries_file st =
     (let st1 = st\<lparr>full_history_data := []\<rparr>;
          st2 = (case changelog_history_file of
                   Missing \<Rightarrow> st1
                 | Unreadable \<Rightarrow>
                     st1\<lparr>error_log := error_log st1 @ [''Error reading changelog history file'']\<rparr>
                 | Content text \<Rightarrow> history_loop (file_lines text) st1)
      in load_summaries summaries_file st2)"

section \<open>ReleaseNotesCompiler\<close>

datatype relnotes_dir =
    NoDir
  | ListError
  | Listing "(string \<times> (string + string)) list"
  \<comment> \<open>the directory \<open>docs/relnotes\<close>: absent, failing to list, or its entries in the
      order \<open>os.listdir\<close> gives them, each with its decoded content (\<open>Inr\<close>) or the
      text of the exception that reading it raises (\<open>Inl\<close>)\<close>

definition is_release_file :: "string \<Rightarrow> bool" where
  "is_release_file f = (py_endswith f ''.rst'' \<and> re_match False filename_pattern f \<noteq> None)"

fun keyed :: "(string \<times> 'a) list \<Rightarrow> py_error + (int list \<times> string \<times> 'a) list" where
  "keyed [] = Inr []"
| "keyed ((f, x) # rest) =
     (case get_version_key f of
        Inl e \<Rightarrow> Inl e
      | Inr k \<Rightarrow> (case keyed rest of Inl e \<Rightarrow> Inl e | Inr ks \<Rightarrow> Inr ((k, f, x) # ks)))"

definition sort_reverse :: "(int list \<times> 'a) list \<Rightarrow> (int list \<times> 'a) list" where
  \<comment> \<open>\<open>list.sort(key=..., reverse=True)\<close>: stable, descending; lists compare lexicographically\<close>
  "sort_reverse xs = rev (sort_key fst (rev xs))"

definition release_block :: "string \<Rightarrow> string \<times> (string + string) \<Rightarrow> string" where
  "release_block dir_path entry =
     (case entry of (rst_file, contents) \<Rightarrow>
        [nl] @ replicate 50 (CHR ''='') @ [nl] @ '' RELEASE: '' @ py_replace ''.rst'' [] rst_file @ [nl]
        @ replicate 50 (CHR ''='') @ [nl, nl]
        @ (case contents of
             Inr text \<Rightarrow> text
           | Inl e \<Rightarrow> ''Error reading file '' @ dir_path @ ''/'' @ rst_file @ '': '' @ e @ [nl]))"

definition generate_summaries_python :: "string \<Rightarrow> relnotes_dir \<Rightarrow> string option" where
  \<comment> \<open>the text written to the summaries cache, \<open>None\<close> when the file is not written\<close>
  "generate_summaries_python dir_path d =
     (case d of
        NoDir \<Rightarrow> None
      | ListError \<Rightarrow> None
      | Listing entries \<Rightarrow>
          (let files = filter (\<lambda>(f, x). is_release_file f) entries in
           case keyed files of
             Inl e \<Rightarrow> None
           | Inr ks \<Rightarrow>
               (let top_50 = take 50 (map snd (sort_reverse ks)) in
                Some (''MESA RELEASE NOTES COMPILATION'' @ [nl, nl]
                      @ concat (map (release_block dir_path) top_50)))))"

text \<open>The shape \<open>\d{4}-\d{2}-\d{2}\<close> of a date field, for the statements below.\<close>

definition is_iso_date :: "string \<Rightarrow> bool" where
  "is_iso_date d =
     (length d = 10 \<and> list_all py_isdigit (take 4 d) \<and> d ! 4 = CHR ''-'' \<and>
      list_all py_isdigit (take 2 (drop 5 d)) \<and> d ! 7 = CHR ''-'' \<and>
      list_all py_isdigit (drop 8 d))"

section \<open>Facts about the string functions\<close>





lemma py_int_small:
  "py_int ''1'' = Inr 1" "py_int ''12'' = Inr 12" "py_int ''2024'' = Inr 2024"
  "py_int ''01'' = Inr 1" "py_int ''03'' = Inr 3" "py_int ''22'' = Inr 22" "py_int ''0'' = Inr 0"
  "py_int ''2'' = Inr 2" "py_int ''rst'' = Inl ValueError"
  by (simp_all add: py_int_def int_isspace_def int_unsigned_def py_isdigit_def digit_val_def)



lemma py_strip_surrounded:
  assumes "\<forall>c\<in>set w1. py_isspace c" "\<forall>c\<in>set w2. py_isspace c"
  shows "py_strip (w1 @ l @ w2) = py_strip l"
proof -
  have a: "dropWhile py_isspace (w1 @ l @ w2) = dropWhile py_isspace (l @ w2)"
    using assms(1) by (simp add: dropWhile_append2)
  show ?thesis
  proof (cases "\<forall>c\<in>set l. py_isspace c")
    case True
    then have d: "dropWhile py_isspace (l @ w2) = []" "dropWhile py_isspace l = []"
      using assms(2) by (auto simp: dropWhile_eq_Nil_conv)
    show ?thesis unfolding py_strip_def a d by simp
  next
    case False
    then obtain x where "x \<in> set l" "\<not> py_isspace x" by blast
    then have b: "dropWhile py_isspace (l @ w2) = dropWhile py_isspace l @ w2"
      by (rule dropWhile_append1)
    have "dropWhile py_isspace (rev w2 @ rev (dropWhile py_isspace l))
        = dropWhile py_isspace (rev (dropWhile py_isspace l))"
      by (rule dropWhile_append2) (use assms(2) in simp)
    then show ?thesis unfolding py_strip_def a b by simp
  qed
qed

lemma py_strip_blank:
  assumes "\<forall>c\<in>set w. py_isspace c"
  shows "py_strip w = []"
proof -
  have d: "dropWhile py_isspace w = []"
    using assms by (simp add: dropWhile_eq_Nil_conv)
  show ?thesis unfolding py_strip_def d by simp
qed

section \<open>VersionKey: results\<close>




section \<open>CutoffCalculator: results\<close>




section \<open>Aggregator and filter: results\<close>

lemma cutoff_2024_03_31:
  "compute_cutoff_date 12
     \<lparr>year = 2024, month = 3, day = 31, hour = 0, minute = 0, second = 0, microsecond = 0\<rparr>
   = Inr \<lparr>year = 2023, month = 3, day = 28, hour = 0, minute = 0, second = 0, microsecond = 0\<rparr>"
  "compute_cutoff_date 1
     \<lparr>year = 2024, month = 3, day = 31, hour = 0, minute = 0, second = 0, microsecond = 0\<rparr>
   = Inr \<lparr>year = 2024, month = 2, day = 28, hour = 0, minute = 0, second = 0, microsecond = 0\<rparr>"
  by (simp_all add: compute_cutoff_date_def mk_datetime_def valid_date_def days_in_month_def
      is_leap_def)

lemma strptime_2024:
  "strptime_ymd ''2024-01-01''
   = Inr \<lparr>year = 2024, month = 1, day = 1, hour = 0, minute = 0, second = 0, microsecond = 0\<rparr>"
  "strptime_ymd ''2024-03-01''
   = Inr \<lparr>year = 2024, month = 3, day = 1, hour = 0, minute = 0, second = 0, microsecond = 0\<rparr>"
  by (simp_all add: strptime_ymd_def strp_year_def strp_lit_def strp_month_def strp_day_def
      py_isdigit_def py_int_small mk_datetime_def valid_date_def days_in_month_def)

lemma str_int_small: "str_int 1 = ''1''" "str_int 12 = ''12''"
  by code_simp+

text \<open>
  C1, as stated, has the cutoff of twelve months before 2024-03-31 at 2024-02-28. Twelve
  months are one year and no month: the program returns 2023-03-28.
\<close>

theorem agg_scenario_counterexample:
  "compute_cutoff_date 12
     \<lparr>year = 2024, month = 3, day = 31, hour = 0, minute = 0, second = 0, microsecond = 0\<rparr>
   \<noteq> Inr \<lparr>year = 2024, month = 2, day = 28, hour = 0, minute = 0, second = 0, microsecond = 0\<rparr>"
  by (simp add: cutoff_2024_03_31)

text \<open>
  C1 (amended): at 2024-03-31 the cutoff 2024-02-28 is that of \<open>months = 1\<close>; with it
  \<open>generate_agg_list\<close> leaves out a record dated 2024-01-01 and lists a record dated
  2024-03-01. With \<open>months = 12\<close> the cutoff is 2023-03-28 and both records are listed.
\<close>

theorem agg_scenario_amended:
  "compute_cutoff_date 1
     \<lparr>year = 2024, month = 3, day = 31, hour = 0, minute = 0, second = 0, microsecond = 0\<rparr>
   = Inr \<lparr>year = 2024, month = 2, day = 28, hour = 0, minute = 0, second = 0, microsecond = 0\<rparr> \<and>
   generate_agg_list ''1''
     \<lparr>year = 2024, month = 3, day = 31, hour = 0, minute = 0, second = 0, microsecond = 0\<rparr>
     [(''2024-01-01'', h1, m1), (''2024-03-01'', h2, m2)]
   = Generated [''Mesa History - Last 1 Months'', replicate 60 (CHR ''-''),
                ''2024-03-01 | '' @ m2 @ '' ('' @ h2 @ '')''] 1 \<and>
   compute_cutoff_date 12
     \<lparr>year = 2024, month = 3, day = 31, hour = 0, minute = 0, second = 0, microsecond = 0\<rparr>
   = Inr \<lparr>year = 2023, month = 3, day = 28, hour = 0, minute = 0, second = 0, microsecond = 0\<rparr> \<and>
   generate_agg_list ''12''
     \<lparr>year = 2024, month = 3, day = 31, hour = 0, minute = 0, second = 0, microsecond = 0\<rparr>
     [(''2024-01-01'', h1, m1), (''2024-03-01'', h2, m2)]
   = Generated [''Mesa History - Last 12 Months'', replicate 60 (CHR ''-''),
                ''2024-01-01 | '' @ m1 @ '' ('' @ h1 @ '')'',
                ''2024-03-01 | '' @ m2 @ '' ('' @ h2 @ '')''] 2"
  by (simp add: generate_agg_list_def py_int_small cutoff_2024_03_31 strptime_2024
      str_int_small dt_le_def dt_key_def)



section \<open>Loading the caches: results\<close>

lemma summaries_loop_keeps:
  "full_history_data (summaries_loop parts i st) = full_history_data st \<and>
   error_log (summaries_loop parts i st) = error_log st"
proof (induction parts i st rule: summaries_loop.induct)
  case (1 parts i st)
  show ?case
  proof (cases "i < length parts")
    case False
    then show ?thesis by (subst (1 2) summaries_loop.simps) simp
  next
    case True
    show ?thesis
    proof (cases "i + 1 < length parts")
      case t: True
      from 1(1)[OF True t refl refl] True t show ?thesis
        by (subst (1 2) summaries_loop.simps) (simp add: Let_def)
    next
      case f: False
      from 1(2)[OF True f] True f show ?thesis
        by (subst (1 2) summaries_loop.simps) simp
    qed
  qed
qed

lemma load_summaries_keeps:
  "full_history_data (load_summaries sf st) = full_history_data st"
  by (cases sf) (simp_all add: load_summaries_def Let_def summaries_loop_keeps)

lemma load_summaries_log:
  "sf \<noteq> Unreadable \<Longrightarrow> error_log (load_summaries sf st) = error_log st"
  by (cases sf) (simp_all add: load_summaries_def Let_def summaries_loop_keeps)

lemma history_loop_log: "error_log (history_loop ls st) = error_log st"
  by (induction ls arbitrary: st) (auto split: option.splits)

lemma history_loop_data:
  "full_history_data (history_loop ls st) = full_history_data st @ List.map_filter parse_line ls"
  by (induction ls arbitrary: st) (auto simp: List.map_filter_simps split: option.splits)

text \<open>
  C10: with no history cache file \<open>load_data\<close> leaves the record sequence empty, and
  with no summaries cache file \<open>load_summaries\<close> leaves the mapping empty. Neither
  adds an entry to the error log; \<open>load_data\<close> without a history file logs nothing
  unless the summaries file is there and cannot be read.
\<close>

theorem load_missing_files:
  "full_history_data (load_data Missing sf st) = [] \<and>
   summaries_data (load_summaries Missing st) = Map.empty \<and>
   summaries_data (load_data hf Missing st) = Map.empty \<and>
   error_log (load_summaries Missing st) = error_log st \<and>
   error_log (load_data Missing Missing st) = error_log st \<and>
   (sf \<noteq> Unreadable \<longrightarrow> error_log (load_data Missing sf st) = error_log st)"
  by (simp add: load_data_def Let_def load_summaries_keeps load_summaries_log)
     (simp add: load_summaries_def)

text \<open>The theorem with records and a mapping in memory from an earlier load.\<close>

theorem load_missing_files_witness:
  "full_history_data (load_data Missing (Content [])
      \<lparr>full_history_data = [(''2023-01-01'', ''?'', ''old'')],
       summaries_data = [''1.0'' \<mapsto> ''notes''], release_list = [''1.0''], error_log = []\<rparr>) = [] \<and>
   error_log (load_data Missing (Content [])
      \<lparr>full_history_data = [(''2023-01-01'', ''?'', ''old'')],
       summaries_data = [''1.0'' \<mapsto> ''notes''], release_list = [''1.0''], error_log = []\<rparr>) = [] \<and>
   summaries_data (load_summaries Missing
      \<lparr>full_history_data = [(''2023-01-01'', ''?'', ''old'')],
       summaries_data = [''1.0'' \<mapsto> ''notes''], release_list = [''1.0''], error_log = []\<rparr>) = Map.empty"
  using load_missing_files[of "Content []"
      "\<lparr>full_history_data = [(''2023-01-01'', ''?'', ''old'')],
        summaries_data = [''1.0'' \<mapsto> ''notes''], release_list = [''1.0''], error_log = []\<rparr>" Missing]
  by simp

lemmas rx_eval = re_search_def re_match_def history_pattern_def lit_def at_bol_def at_eol_def
  py_isdigit_def is_hex_def nl_def group_def py_isspace_def py_strip_def

lemma parse_line_examples:
  "parse_line ''2023-01-01 | Valid commit (abc123de)\<newline>''
     = Some (''2023-01-01'', ''abc123de'', ''Valid commit'')"
  "parse_line ''broken\<newline>'' = None"
  "parse_line ''2023-01-02 | Another (def456ab)'' = Some (''2023-01-02'', ''def456ab'', ''Another'')"
  "parse_line ''2023-01-01 | msg (abc123)'' = Some (''2023-01-01'', ''abc123'', ''msg'')"
  by (simp_all add: parse_line_def rx_eval py_split1_def)

text \<open>
  C9: \<open>parse_line\<close> is the body of the loop of \<open>load_data\<close>. Whitespace around a line
  does not change what the line gives, a line of whitespace only gives no record, and
  the full record between two blanks on each side is read with its hash.
\<close>

theorem parse_line_strips:
  "((\<forall>c\<in>set w1. py_isspace c) \<and> (\<forall>c\<in>set w2. py_isspace c) \<longrightarrow>
       parse_line (w1 @ l @ w2) = parse_line l) \<and>
   ((\<forall>c\<in>set w. py_isspace c) \<longrightarrow> parse_line w = None) \<and>
   parse_line ''  2023-01-01 | msg (abc123)  '' = Some (''2023-01-01'', ''abc123'', ''msg'')"
proof (intro conjI impI)
  assume "(\<forall>c\<in>set w1. py_isspace c) \<and> (\<forall>c\<in>set w2. py_isspace c)"
  then have "py_strip (w1 @ l @ w2) = py_strip l" by (simp add: py_strip_surrounded)
  then show "parse_line (w1 @ l @ w2) = parse_line l" by (simp add: parse_line_def)
next
  assume "\<forall>c\<in>set w. py_isspace c"
  then have "py_strip w = []" by (rule py_strip_blank)
  then show "parse_line w = None" by (simp add: parse_line_def)
next
  show "parse_line ''  2023-01-01 | msg (abc123)  '' = Some (''2023-01-01'', ''abc123'', ''msg'')"
    by (simp add: parse_line_def rx_eval py_split1_def)
qed

text \<open>The theorem at a record between a tab and a newline, and at a line of three blanks.\<close>

theorem parse_line_strips_witness:
  "parse_line ([CHR 0x09] @ ''2023-01-01 | msg (abc123)'' @ [CHR 0x0A])
     = Some (''2023-01-01'', ''abc123'', ''msg'') \<and>
   parse_line ''   '' = None"
  using parse_line_strips[of "[CHR 0x09]" "[CHR 0x0A]" "''2023-01-01 | msg (abc123)''" "''   ''"]
  by (simp add: parse_line_examples py_isspace_def nl_def)

lemma file_lines_example:
  "file_lines (''2023-01-01 | Valid commit (abc123de)\<newline>broken\<newline>2023-01-02 | Another (def456ab)'')
   = [''2023-01-01 | Valid commit (abc123de)\<newline>'', ''broken\<newline>'',
      ''2023-01-02 | Another (def456ab)'']"
  by (simp add: file_lines_def nl_def)

lemma split_first_length: "length (py_split1 sep s) = 2 \<longleftrightarrow> split_first sep s \<noteq> None"
  by (auto simp: py_split1_def split: option.splits)

text \<open>
  C4: \<open>load_data\<close> on any text of the history cache logs no error and leaves exactly
  the records of the lines that give one, in the order of the lines. A line gives none
  exactly when, stripped, it neither matches the primary pattern nor splits in two at its
  first \<open>" | "\<close>; a match gives date, hash and message, a split gives the hash \<open>?\<close>.
  The text of the specification's scenario gives its two records.
\<close>

theorem load_data_parses:
  "full_history_data (load_data (Content text) sf st)
     = List.map_filter parse_line (file_lines text) \<and>
   error_log (load_data (Content text) Missing st) = error_log st \<and>
   (parse_line l = None \<longleftrightarrow>
      re_search False history_pattern (py_strip l) = None \<and>
      length (py_split1 '' | '' (py_strip l)) \<noteq> 2) \<and>
   (re_search False history_pattern (py_strip l) = Some (pre, s, cp) \<longrightarrow>
      parse_line l = Some (group cp 1, group cp 3, group cp 2)) \<and>
   (re_search False history_pattern (py_strip l) = None \<and>
    split_first '' | '' (py_strip l) = Some (a, b) \<longrightarrow>
      parse_line l = Some (a, ''?'', b)) \<and>
   full_history_data (load_data (Content
       (''2023-01-01 | Valid commit (abc123de)\<newline>broken\<newline>2023-01-02 | Another (def456ab)'')) sf st)
     = [(''2023-01-01'', ''abc123de'', ''Valid commit''),
        (''2023-01-02'', ''def456ab'', ''Another'')]"
proof -
  have d: "\<And>t. full_history_data (load_data (Content t) sf st)
      = List.map_filter parse_line (file_lines t)"
    by (simp add: load_data_def Let_def load_summaries_keeps history_loop_data)
  have e: "error_log (load_data (Content text) Missing st) = error_log st"
    by (simp add: load_data_def Let_def load_summaries_log history_loop_log)
  have n0: "re_search False history_pattern [] = None" "py_split1 '' | '' [] = [[]]"
    by (simp_all add: rx_eval py_split1_def)
  have n: "parse_line l = None \<longleftrightarrow>
      re_search False history_pattern (py_strip l) = None \<and>
      length (py_split1 '' | '' (py_strip l)) \<noteq> 2"
  proof (cases "py_strip l = []")
    case True
    then show ?thesis by (simp add: parse_line_def n0)
  next
    case False
    then show ?thesis
      by (cases "re_search False history_pattern (py_strip l)")
         (auto simp: parse_line_def Let_def)
  qed
  have m: "re_search False history_pattern (py_strip l) = Some (pre, s, cp) \<longrightarrow>
      parse_line l = Some (group cp 1, group cp 3, group cp 2)"
    by (cases "py_strip l = []") (auto simp: parse_line_def n0)
  have f: "re_search False history_pattern (py_strip l) = None \<and>
      split_first '' | '' (py_strip l) = Some (a, b) \<longrightarrow> parse_line l = Some (a, ''?'', b)"
    by (cases "py_strip l = []") (auto simp: parse_line_def Let_def py_split1_def)
  have x: "List.map_filter parse_line
      [''2023-01-01 | Valid commit (abc123de)\<newline>'', ''broken\<newline>'',
       ''2023-01-02 | Another (def456ab)'']
     = [(''2023-01-01'', ''abc123de'', ''Valid commit''),
        (''2023-01-02'', ''def456ab'', ''Another'')]"
    by (simp add: List.map_filter_simps parse_line_examples)
  show ?thesis
    using d e n m f x by (simp add: file_lines_example)
qed

text \<open>
  The theorem on a cache whose second line has no hash and whose third is no record.
\<close>

theorem load_data_parses_witness:
  "full_history_data (load_data
       (Content (''2023-01-01 | msg (abc123)\<newline>2023-01-02 | no hash\<newline>junk''))
       Missing
       \<lparr>full_history_data = [], summaries_data = Map.empty, release_list = [], error_log = []\<rparr>)
     = [(''2023-01-01'', ''abc123'', ''msg''), (''2023-01-02'', ''?'', ''no hash'')]"
proof -
  have fl: "file_lines (''2023-01-01 | msg (abc123)\<newline>2023-01-02 | no hash\<newline>junk'')
      = [''2023-01-01 | msg (abc123)\<newline>'', ''2023-01-02 | no hash\<newline>'', ''junk'']"
    by (simp add: file_lines_def nl_def)
  have pl: "parse_line ''2023-01-01 | msg (abc123)\<newline>'' = Some (''2023-01-01'', ''abc123'', ''msg'')"
    "parse_line ''2023-01-02 | no hash\<newline>'' = Some (''2023-01-02'', ''?'', ''no hash'')"
    "parse_line ''junk'' = None"
    by (simp_all add: parse_line_def rx_eval py_split1_def)
  show ?thesis
    using load_data_parses[of
        "''2023-01-01 | msg (abc123)\<newline>2023-01-02 | no hash\<newline>junk''" Missing
        "\<lparr>full_history_data = [], summaries_data = Map.empty, release_list = [], error_log = []\<rparr>"]
    by (simp add: fl pl List.map_filter_simps)
qed

section \<open>Facts about the matcher\<close>

lemma run_split:
  "(\<forall>c\<in>set a. p c) \<Longrightarrow> (b = [] \<or> \<not> p (hd b)) \<Longrightarrow>
   takeWhile p (a @ b) = a \<and> dropWhile p (a @ b) = b"
proof (induction a)
  case Nil
  then show ?case by (cases b) auto
next
  case (Cons x a)
  then show ?case by simp
qed

lemma py_isspace_nl: "py_isspace nl"
  by (simp add: py_isspace_def nl_def)

lemma rx_Chr_Some:
  "(rx_match ml (Chr p # r) pre s mk cp = Some res) =
     (\<exists>c cs. s = c # cs \<and> p c \<and> rx_match ml r (c # pre) cs mk cp = Some res)"
  by (cases s) auto

lemma rx_Rep_sound:
  "rx_match ml (Rep p n # r) pre s mk cp = Some res \<Longrightarrow>
     \<exists>a b. s = a @ b \<and> (\<forall>c\<in>set a. p c) \<and> n \<le> length a \<and>
            rx_match ml r (rev a @ pre) b mk cp = Some res"
proof (induction s arbitrary: n pre)
  case Nil
  then have "n = 0" "rx_match ml r pre [] mk cp = Some res"
    by (simp_all split: if_splits)
  then show ?case by (intro exI[of _ "[]"]) simp
next
  case (Cons c cs)
  show ?case
  proof (cases "p c")
    case False
    with Cons.prems have "n = 0" "rx_match ml r pre (c # cs) mk cp = Some res"
      by (simp_all split: if_splits)
    then show ?thesis by (intro exI[of _ "[]"] exI[of _ "c # cs"]) simp
  next
    case True
    show ?thesis
    proof (cases "rx_match ml (Rep p (n - 1) # r) (c # pre) cs mk cp")
      case None
      with True Cons.prems have "n = 0" "rx_match ml r pre (c # cs) mk cp = Some res"
        by (simp_all split: if_splits)
      then show ?thesis by (intro exI[of _ "[]"] exI[of _ "c # cs"]) simp
    next
      case (Some res')
      with True Cons.prems have "res' = res" by simp
      with Some have "rx_match ml (Rep p (n - 1) # r) (c # pre) cs mk cp = Some res" by simp
      from Cons.IH[OF this]
      obtain a b where ab: "cs = a @ b" "\<forall>x\<in>set a. p x" "n - 1 \<le> length a"
        "rx_match ml r (rev a @ c # pre) b mk cp = Some res"
        by blast
      have "c # cs = (c # a) @ b \<and> (\<forall>x\<in>set (c # a). p x) \<and> n \<le> length (c # a) \<and>
          rx_match ml r (rev (c # a) @ pre) b mk cp = Some res"
        using ab True by simp
      then show ?thesis by blast
    qed
  qed
qed

lemma rx_Rep_take:
  "(\<forall>c\<in>set a. p c) \<Longrightarrow> n \<le> length a \<Longrightarrow> (b = [] \<or> \<not> p (hd b)) \<Longrightarrow>
   rx_match ml r (rev a @ pre) b mk cp = Some res \<Longrightarrow>
   rx_match ml (Rep p n # r) pre (a @ b) mk cp = Some res"
proof (induction a arbitrary: n pre)
  case Nil
  then show ?case by (cases b) simp_all
next
  case (Cons x a)
  have "rx_match ml (Rep p (n - 1) # r) (x # pre) (a @ b) mk cp = Some res"
  proof (rule Cons.IH)
    show "\<forall>c\<in>set a. p c" using Cons.prems(1) by simp
    show "n - 1 \<le> length a" using Cons.prems(2) by simp
    show "b = [] \<or> \<not> p (hd b)" by (rule Cons.prems(3))
    show "rx_match ml r (rev a @ x # pre) b mk cp = Some res" using Cons.prems(4) by simp
  qed
  with Cons.prems(1) show ?case by simp
qed


lemma rx_ws_nl_none:
  "nl \<notin> set (takeWhile py_isspace s) \<Longrightarrow>
   rx_match ml (Rep py_isspace 0 # lit nl # r) pre s mk cp = None"
proof (induction s arbitrary: pre)
  case Nil
  then show ?case by (simp add: lit_def)
next
  case (Cons c cs)
  show ?case
  proof (cases "py_isspace c")
    case False
    with py_isspace_nl have "c \<noteq> nl" by auto
    with False show ?thesis by (simp add: lit_def)
  next
    case True
    with Cons.prems have c: "c \<noteq> nl" and "nl \<notin> set (takeWhile py_isspace cs)" by auto
    then have "rx_match ml (Rep py_isspace 0 # lit nl # r) (c # pre) cs mk cp = None"
      by (intro Cons.IH)
    with True c show ?thesis by (simp add: lit_def)
  qed
qed

lemma rx_ws_nl_some:
  "nl \<in> set (takeWhile py_isspace s) \<Longrightarrow>
   rx_match ml [Rep py_isspace 0, lit nl] pre s mk cp \<noteq> None"
proof (induction s arbitrary: pre)
  case Nil
  then show ?case by simp
next
  case (Cons c cs)
  then have w: "py_isspace c" by (auto split: if_splits)
  show ?case
  proof (cases "rx_match ml [Rep py_isspace 0, lit nl] (c # pre) cs mk cp")
    case (Some res)
    with w show ?thesis by simp
  next
    case None
    with Cons.IH[of "c # pre"] have "nl \<notin> set (takeWhile py_isspace cs)" by blast
    with Cons.prems w have "c = nl" by simp
    with None w show ?thesis by (simp add: lit_def)
  qed
qed

lemma rx_ws_nl_ws_take:
  "(\<forall>c\<in>set w. py_isspace c) \<Longrightarrow> nl \<in> set w \<Longrightarrow> (b = [] \<or> \<not> py_isspace (hd b)) \<Longrightarrow>
   rx_match ml X (rev w @ pre) b mk cp = Some res \<Longrightarrow>
   rx_match ml (Rep py_isspace 0 # lit nl # Rep py_isspace 0 # X) pre (w @ b) mk cp = Some res"
proof (induction w arbitrary: pre)
  case Nil
  then show ?case by simp
next
  case (Cons x w)
  have allw: "\<forall>c\<in>set w. py_isspace c" and wx: "py_isspace x" using Cons.prems(1) by simp_all
  have tw: "takeWhile py_isspace (w @ b) = w"
    using run_split[OF allw Cons.prems(3)] by simp
  have cont: "rx_match ml X (rev w @ x # pre) b mk cp = Some res"
    using Cons.prems(4) by simp
  show ?case
  proof (cases "nl \<in> set w")
    case True
    have "rx_match ml (Rep py_isspace 0 # lit nl # Rep py_isspace 0 # X) (x # pre) (w @ b) mk cp
        = Some res"
      by (rule Cons.IH[OF allw True Cons.prems(3) cont])
    with wx show ?thesis by simp
  next
    case False
    with Cons.prems(2) have x: "x = nl" by simp
    from False tw have "nl \<notin> set (takeWhile py_isspace (w @ b))" by simp
    then have
      "rx_match ml (Rep py_isspace 0 # lit nl # Rep py_isspace 0 # X) (x # pre) (w @ b) mk cp = None"
      by (rule rx_ws_nl_none)
    moreover have "rx_match ml (Rep py_isspace 0 # X) (x # pre) (w @ b) mk cp = Some res"
      by (rule rx_Rep_take[OF allw _ Cons.prems(3) cont]) simp
    ultimately show ?thesis using wx x by (simp add: lit_def)
  qed
qed

lemma rx_ws_nl_end_take:
  "(\<forall>c\<in>set w1. py_isspace c) \<Longrightarrow> (\<forall>c\<in>set w2. py_isspace c) \<Longrightarrow> nl \<notin> set w2 \<Longrightarrow>
   (t = [] \<or> \<not> py_isspace (hd t)) \<Longrightarrow>
   rx_match ml [Rep py_isspace 0, lit nl] pre (w1 @ nl # w2 @ t) mk cp
     = Some (nl # rev w1 @ pre, w2 @ t, cp)"
proof (induction w1 arbitrary: pre)
  case Nil
  have tw: "takeWhile py_isspace (w2 @ t) = w2"
    using run_split[OF Nil.prems(2) Nil.prems(4)] by simp
  with Nil.prems(3) have "nl \<notin> set (takeWhile py_isspace (w2 @ t))" by simp
  then have "rx_match ml [Rep py_isspace 0, lit nl] (nl # pre) (w2 @ t) mk cp = None"
    by (rule rx_ws_nl_none)
  with py_isspace_nl show ?case by (simp add: lit_def)
next
  case (Cons x w1)
  have allw: "\<forall>c\<in>set w1. py_isspace c" and wx: "py_isspace x" using Cons.prems(1) by simp_all
  have "rx_match ml [Rep py_isspace 0, lit nl] (x # pre) (w1 @ nl # w2 @ t) mk cp
      = Some (nl # rev w1 @ x # pre, w2 @ t, cp)"
    by (rule Cons.IH[OF allw Cons.prems(2) Cons.prems(3) Cons.prems(4)])
  with wx show ?case by simp
qed

lemma rx_ws_nl_end_sound:
  "rx_match ml [Rep py_isspace 0, lit nl] pre s mk cp = Some (pre', s', cp') \<Longrightarrow>
   \<exists>m. s = m @ s' \<and> pre' = rev m @ pre \<and> cp' = cp \<and> m \<noteq> [] \<and> last m = nl \<and>
       (\<forall>c\<in>set m. py_isspace c) \<and> nl \<notin> set (takeWhile py_isspace s')"
proof (induction s arbitrary: pre)
  case Nil
  then show ?case by (simp add: lit_def)
next
  case (Cons c cs)
  show ?case
  proof (cases "py_isspace c")
    case False
    with py_isspace_nl have "c \<noteq> nl" by auto
    with False Cons.prems show ?thesis by (simp add: lit_def)
  next
    case True
    show ?thesis
    proof (cases "rx_match ml [Rep py_isspace 0, lit nl] (c # pre) cs mk cp")
      case (Some res)
      with True Cons.prems have "res = (pre', s', cp')" by simp
      with Some have "rx_match ml [Rep py_isspace 0, lit nl] (c # pre) cs mk cp = Some (pre', s', cp')"
        by simp
      from Cons.IH[OF this] obtain m where
        m: "cs = m @ s'" "pre' = rev m @ c # pre" "cp' = cp" "m \<noteq> []" "last m = nl"
          "\<forall>x\<in>set m. py_isspace x" "nl \<notin> set (takeWhile py_isspace s')"
        by blast
      have "c # cs = (c # m) @ s' \<and> pre' = rev (c # m) @ pre \<and> cp' = cp \<and> c # m \<noteq> [] \<and>
          last (c # m) = nl \<and> (\<forall>x\<in>set (c # m). py_isspace x) \<and>
          nl \<notin> set (takeWhile py_isspace s')"
        using m True by simp
      then show ?thesis by blast
    next
      case None
      with True Cons.prems have r: "c = nl" "pre' = nl # pre" "s' = cs" "cp' = cp"
        by (auto simp: lit_def split: if_splits)
      have "nl \<notin> set (takeWhile py_isspace cs)"
        using None rx_ws_nl_some by blast
      with r have "c # cs = [nl] @ s' \<and> pre' = rev [nl] @ pre \<and> cp' = cp \<and> [nl] \<noteq> [] \<and>
          last [nl] = nl \<and> (\<forall>x\<in>set [nl]. py_isspace x) \<and>
          nl \<notin> set (takeWhile py_isspace s')"
        using py_isspace_nl by simp
      then show ?thesis by blast
    qed
  qed
qed

section \<open>HistoryLogParser: the hash invariant\<close>

lemma history_match_shape:
  "rx_match False history_pattern [] line Map.empty Map.empty = Some (pre, s, cp) \<Longrightarrow>
   \<exists>d m h. cp 1 = Some d \<and> cp 2 = Some m \<and> cp 3 = Some h \<and> is_iso_date d \<and> h \<noteq> [] \<and>
     list_all is_hex h \<and> line = d @ '' | '' @ m @ '' ('' @ h @ '')'' @ s \<and> (s = [] \<or> s = [nl])"
  apply (clarsimp simp: history_pattern_def lit_def rx_Chr_Some at_bol_def)
  apply (drule rx_Rep_sound)
  apply (clarsimp simp: rx_Chr_Some)
  apply (drule rx_Rep_sound)
  apply (clarsimp simp: rx_Chr_Some at_eol_def is_iso_date_def list_all_iff split: if_splits list.splits)
  done

lemma search_anchored:
  "pre \<noteq> [] \<Longrightarrow> re_search_from False (Bol # r) pre s = None"
  by (induction s arbitrary: pre) (auto simp: at_bol_def split: list.splits)

lemma re_search_history:
  "re_search False history_pattern line
     = rx_match False history_pattern [] line Map.empty Map.empty"
proof (cases line)
  case Nil
  then show ?thesis by (simp add: re_search_def)
next
  case (Cons c cs)
  have "re_search_from False history_pattern [c] cs = None"
    unfolding history_pattern_def by (rule search_anchored) simp
  then show ?thesis
    by (simp add: re_search_def Cons split: option.splits)
qed

lemma parse_line_hash:
  assumes "parse_line l = Some (d, h, m)"
  shows "(re_search False history_pattern (py_strip l) = None \<and> h = ''?'') \<or>
         (re_search False history_pattern (py_strip l) \<noteq> None \<and> h \<noteq> [] \<and> list_all is_hex h \<and>
          is_iso_date d)"
proof (cases "re_search False history_pattern (py_strip l)")
  case None
  with assms show ?thesis
    by (auto simp: parse_line_def Let_def split: if_splits)
next
  case (Some res)
  obtain pre s cp where res: "res = (pre, s, cp)" by (cases res) auto
  from Some res have
    "rx_match False history_pattern [] (py_strip l) Map.empty Map.empty = Some (pre, s, cp)"
    by (simp add: re_search_history)
  from history_match_shape[OF this] obtain d' m' h' where
    sh: "cp 1 = Some d'" "cp 2 = Some m'" "cp 3 = Some h'" "is_iso_date d'" "h' \<noteq> []"
      "list_all is_hex h'"
    by blast
  from assms Some res have "d = group cp 1" "h = group cp 3"
    by (auto simp: parse_line_def Let_def split: if_splits)
  with sh Some show ?thesis by (simp add: group_def)
qed

text \<open>
  C8: every record \<open>load_data\<close> leaves has a hash that is not empty: either the
  placeholder \<open>?\<close>, from the split of a line the primary pattern did not match, or
  characters of \<open>[a-f0-9]\<close> only, from a match of the primary pattern, and then the
  date has the shape \<open>\d{4}-\d{2}-\d{2}\<close>.
\<close>

theorem load_data_hash_invariant:
  "((d, h, m) \<in> set (full_history_data (load_data hf sf st)) \<longrightarrow>
      h \<noteq> [] \<and> (h = ''?'' \<or> list_all is_hex h \<and> is_iso_date d)) \<and>
   (parse_line l = Some (d, h, m) \<longrightarrow>
      (re_search False history_pattern (py_strip l) = None \<and> h = ''?'') \<or>
      (re_search False history_pattern (py_strip l) \<noteq> None \<and> h \<noteq> [] \<and> list_all is_hex h \<and>
       is_iso_date d))"
proof -
  have "h \<noteq> [] \<and> (h = ''?'' \<or> list_all is_hex h \<and> is_iso_date d)"
    if a: "(d, h, m) \<in> set (full_history_data (load_data hf sf st))"
  proof -
    have "\<exists>l. parse_line l = Some (d, h, m)"
    proof (cases hf)
      case (Content doc)
      with a have "(d, h, m) \<in> set (List.map_filter parse_line (file_lines doc))"
        by (simp add: load_data_def Let_def load_summaries_keeps history_loop_data)
      then show ?thesis by (auto simp: List.map_filter_def)
    next
      case Missing
      with a show ?thesis by (simp add: load_data_def Let_def load_summaries_keeps)
    next
      case Unreadable
      with a show ?thesis by (simp add: load_data_def Let_def load_summaries_keeps)
    qed
    then obtain l' where "parse_line l' = Some (d, h, m)" by blast
    from parse_line_hash[OF this] show ?thesis by auto
  qed
  moreover have "(re_search False history_pattern (py_strip l) = None \<and> h = ''?'') \<or>
      (re_search False history_pattern (py_strip l) \<noteq> None \<and> h \<noteq> [] \<and> list_all is_hex h \<and>
       is_iso_date d)"
    if "parse_line l = Some (d, h, m)"
    using that by (rule parse_line_hash)
  ultimately show ?thesis by blast
qed

text \<open>
  The theorem on a cache with a full record, a record without hash and a line that is none.
\<close>

theorem load_data_hash_invariant_witness:
  "(''2023-01-01'', ''abc123'', ''msg'') \<in> set (full_history_data (load_data
       (Content ''2023-01-01 | msg (abc123)\<newline>2023-01-02 | no hash\<newline>junk'') Missing
       \<lparr>full_history_data = [], summaries_data = Map.empty, release_list = [], error_log = []\<rparr>)) \<and>
   list_all is_hex ''abc123'' \<and> is_iso_date ''2023-01-01''"
proof -
  have fl: "file_lines (''2023-01-01 | msg (abc123)\<newline>2023-01-02 | no hash\<newline>junk'')
      = [''2023-01-01 | msg (abc123)\<newline>'', ''2023-01-02 | no hash\<newline>'', ''junk'']"
    by (simp add: file_lines_def nl_def)
  have pl: "parse_line ''2023-01-01 | msg (abc123)\<newline>'' = Some (''2023-01-01'', ''abc123'', ''msg'')"
    "parse_line ''2023-01-02 | no hash\<newline>'' = Some (''2023-01-02'', ''?'', ''no hash'')"
    "parse_line ''junk'' = None"
    by (simp_all add: parse_line_def rx_eval py_split1_def)
  have mem: "(''2023-01-01'', ''abc123'', ''msg'') \<in> set (full_history_data (load_data
       (Content ''2023-01-01 | msg (abc123)\<newline>2023-01-02 | no hash\<newline>junk'') Missing
       \<lparr>full_history_data = [], summaries_data = Map.empty, release_list = [], error_log = []\<rparr>))"
    by (simp add: load_data_def Let_def load_summaries_keeps history_loop_data fl pl
        List.map_filter_simps)
  from load_data_hash_invariant[of "''2023-01-01''" "''abc123''" "''msg''"
      "Content ''2023-01-01 | msg (abc123)\<newline>2023-01-02 | no hash\<newline>junk''" Missing
      "\<lparr>full_history_data = [], summaries_data = Map.empty, release_list = [], error_log = []\<rparr>"]
    mem
  show ?thesis by simp
qed

end
